theory Spec2Isabelle
  imports Complex_Main "HOL-Library.Word" "HOL-Library.AList"
begin

unbundle bit_operations_syntax

section \<open>File names of the identity store\<close>

text \<open>
  The identity store is the directory \<^verbatim>\<open>KNOWN_FACES_FOLDER\<close>: one image file per
  enrolled person. File names are Python strings; the model covers ASCII names, as
  byte lists.
\<close>

definition ALLOWED_EXTENSIONS :: "string list" where
  "ALLOWED_EXTENSIONS = [''png'', ''jpg'', ''jpeg'']"

definition lower_char :: "char \<Rightarrow> char" where
  "lower_char c =
     (case map_of (zip ''ABCDEFGHIJKLMNOPQRSTUVWXYZ'' ''abcdefghijklmnopqrstuvwxyz'') c of
        Some d \<Rightarrow> d
      | None \<Rightarrow> c)"

definition lower :: "string \<Rightarrow> string" where
  "lower s = map lower_char s"

text \<open>\<^verbatim>\<open>filename.rsplit('.', 1)[1]\<close>: what follows the last dot.\<close>

definition rsplit_ext :: "string \<Rightarrow> string" where
  "rsplit_ext s = rev (takeWhile (\<lambda>c. c \<noteq> CHR ''.'') (rev s))"

text \<open>
  \<^verbatim>\<open>allowed_file\<close> (app/utils/file_utils.py):
  \<^verbatim>\<open>'.' in filename and filename.rsplit('.', 1)[1].lower() in ALLOWED_EXTENSIONS\<close>.
\<close>

definition allowed_file :: "string \<Rightarrow> bool" where
  "allowed_file filename =
     (CHR ''.'' \<in> set filename \<and> lower (rsplit_ext filename) \<in> set ALLOWED_EXTENSIONS)"

text \<open>
  \<^verbatim>\<open>os.path.splitext(filename)[0]\<close> on a name without directory separators (what
  \<^verbatim>\<open>os.listdir\<close> yields): the text before the last dot, unless that text is empty or
  made of dots only, in which case the whole name is the root.
\<close>

definition splitext_root :: "string \<Rightarrow> string" where
  "splitext_root p =
     (let stem = rev (tl (dropWhile (\<lambda>c. c \<noteq> CHR ''.'') (rev p)))
      in if CHR ''.'' \<in> set p \<and> list_ex (\<lambda>c. c \<noteq> CHR ''.'') stem then stem else p)"

subsection \<open>The sanitiser\<close>

text \<open>
  \<^verbatim>\<open>secure_filename\<close> comes from werkzeug, outside the repository, so the store
  operations below take the sanitiser as a parameter \<open>sf\<close>. For concrete runs the
  following definition renders the library's behaviour on ASCII input under POSIX:
  path separators become spaces, the text is split at whitespace and joined with
  underscores, every character outside \<^verbatim>\<open>[A-Za-z0-9_.-]\<close> is dropped, and leading
  and trailing dots and underscores are stripped.
\<close>

definition is_space :: "char \<Rightarrow> bool" where
  "is_space c = ((of_char c :: nat) \<in> set [32, 9, 10, 11, 12, 13, 28, 29, 30, 31])"

fun split_words :: "string \<Rightarrow> string \<Rightarrow> string list" where
  "split_words [] w = (if w = [] then [] else [w])"
| "split_words (c # cs) w =
     (if is_space c then (if w = [] then split_words cs [] else w # split_words cs [])
      else split_words cs (w @ [c]))"

fun join_with :: "string \<Rightarrow> string list \<Rightarrow> string" where
  "join_with sep [] = []"
| "join_with sep [w] = w"
| "join_with sep (w # ws) = w @ sep @ join_with sep ws"

definition filename_char_ok :: "char \<Rightarrow> bool" where
  "filename_char_ok c =
     (let n = (of_char c :: nat)
      in (65 \<le> n \<and> n \<le> 90) \<or> (97 \<le> n \<and> n \<le> 122) \<or> (48 \<le> n \<and> n \<le> 57)
         \<or> c = CHR ''_'' \<or> c = CHR ''.'' \<or> c = CHR ''-'')"

definition strip_chars :: "string \<Rightarrow> string \<Rightarrow> string" where
  "strip_chars cs s =
     rev (dropWhile (\<lambda>c. c \<in> set cs) (rev (dropWhile (\<lambda>c. c \<in> set cs) s)))"

definition secure_filename :: "string \<Rightarrow> string" where
  "secure_filename name =
     strip_chars ''._''
       (filter filename_char_ok
         (join_with ''_''
           (split_words (map (\<lambda>c. if c = CHR ''/'' then CHR '' '' else c) name) [])))"

section \<open>The identity store and the registry\<close>

type_synonym descriptor = "real list"

datatype error = ImageError | ShapeError | IndexError | InferenceError | DetectorError

text \<open>
  The process state of app/services/face\_service.py: the directory of stored
  images (file name and content, in listing order) and the two module-level lists
  \<^verbatim>\<open>known_face_encodings\<close> and \<^verbatim>\<open>known_face_names\<close>. Images are opaque (\<open>'i\<close>).
\<close>

record 'i world =
  known_faces_folder :: "(string \<times> 'i) list"
  known_face_encodings :: "descriptor list"
  known_face_names :: "string list"

record 'i upload =
  upload_filename :: string
  upload_content :: 'i

text \<open>
  Loading an image and computing its face encodings is the external face
  recognition library: a parameter \<open>enc\<close>, which returns the encodings of the faces
  found (possibly none) or raises.

  The loop body of \<^verbatim>\<open>load_known_faces\<close>: a file with an allowed extension whose
  image yields at least one encoding contributes its first encoding and the root of
  its file name; a file without a face, or one whose loading raises, is skipped.
\<close>

fun scan_faces ::
  "('i \<Rightarrow> error + descriptor list) \<Rightarrow> (string \<times> 'i) list \<Rightarrow>
   descriptor list \<times> string list \<Rightarrow> descriptor list \<times> string list" where
  "scan_faces enc [] acc = acc"
| "scan_faces enc ((filename, img) # rest) (encs, names) =
     (if allowed_file filename then
        (case enc img of
           Inr (encoding # _) \<Rightarrow>
             scan_faces enc rest (encs @ [encoding], names @ [splitext_root filename])
         | Inr [] \<Rightarrow> scan_faces enc rest (encs, names)
         | Inl _ \<Rightarrow> scan_faces enc rest (encs, names))
      else scan_faces enc rest (encs, names))"

definition load_known_faces ::
  "('i \<Rightarrow> error + descriptor list) \<Rightarrow> 'i world \<Rightarrow> nat \<times> 'i world" where
  "load_known_faces enc w =
     (case scan_faces enc (known_faces_folder w) ([], []) of
        (encs, names) \<Rightarrow>
          (length names, w\<lparr>known_face_encodings := encs, known_face_names := names\<rparr>))"

text \<open>
  \<^verbatim>\<open>register_face(file, name)\<close>, returning the HTTP status with the new state. The
  upload is written to \<^verbatim>\<open><sf name>.jpg\<close> first (\<^verbatim>\<open>file.save\<close> replaces a file of that
  name); the saved file is then checked for a face and removed when there is none.
  An exception after the save leaves the file in place (status 500). Where a new
  file appears in the listing is up to the file system; here it comes last, and a
  replaced file keeps its place. The first test,
  \<^verbatim>\<open>not file or not name\<close>, holds for an upload without a file name and for an empty
  name.
\<close>

definition register_face ::
  "(string \<Rightarrow> string) \<Rightarrow> ('i \<Rightarrow> error + descriptor list) \<Rightarrow>
   'i upload \<Rightarrow> string \<Rightarrow> 'i world \<Rightarrow> nat \<times> 'i world" where
  "register_face sf enc file name w =
     (if upload_filename file = [] \<or> name = [] then (400, w)
      else if \<not> allowed_file (upload_filename file) then (400, w)
      else
        (let filename = sf name @ ''.jpg'';
             w1 = w\<lparr>known_faces_folder :=
                      AList.update filename (upload_content file) (known_faces_folder w)\<rparr>
         in case enc (upload_content file) of
              Inl _ \<Rightarrow> (500, w1)
            | Inr [] \<Rightarrow>
                (400, w1\<lparr>known_faces_folder :=
                            AList.delete filename (known_faces_folder w1)\<rparr>)
            | Inr (_ # _) \<Rightarrow> (200, snd (load_known_faces enc w1))))"

text \<open>\<^verbatim>\<open>delete_face(name)\<close>: 404 when \<^verbatim>\<open><sf name>.jpg\<close> is not in the store.\<close>

definition delete_face ::
  "(string \<Rightarrow> string) \<Rightarrow> ('i \<Rightarrow> error + descriptor list) \<Rightarrow>
   string \<Rightarrow> 'i world \<Rightarrow> nat \<times> 'i world" where
  "delete_face sf enc name w =
     (let filename = sf name @ ''.jpg''
      in if filename \<in> set (map fst (known_faces_folder w)) then
           (200, snd (load_known_faces enc
                   (w\<lparr>known_faces_folder := AList.delete filename (known_faces_folder w)\<rparr>)))
         else (404, w))"

definition list_faces :: "'i world \<Rightarrow> string list \<times> nat" where
  "list_faces w = (known_face_names w, length (known_face_names w))"


section \<open>Matching a probe against the registry\<close>

text \<open>
  \<^verbatim>\<open>face_recognition.face_distance\<close> is the Euclidean norm of the difference of each
  known encoding and the probe (\<^verbatim>\<open>np.linalg.norm(encodings - probe, axis=1)\<close>).
  Descriptors are lists of reals. The known encodings form a two-dimensional array
  (encodings of unequal lengths do not, and the call raises); the subtraction follows
  numpy's broadcasting: a probe of the encodings' length is subtracted entry by
  entry, a probe of length 1 is subtracted from every entry, encodings of length 1
  are stretched to the probe's length, and every other shape raises.
\<close>

definition euclidean :: "descriptor \<Rightarrow> descriptor \<Rightarrow> real" where
  "euclidean a b = sqrt (\<Sum>(x, y)\<leftarrow>zip a b. (x - y)\<^sup>2)"

definition face_distance :: "descriptor list \<Rightarrow> descriptor \<Rightarrow> error + real list" where
  "face_distance face_encodings face_to_compare =
     (if face_encodings = [] then Inr []
      else
        (let d = length (hd face_encodings); p = length face_to_compare
         in if \<not> list_all (\<lambda>e. length e = d) face_encodings then Inl ShapeError
            else if p = d then Inr (map (\<lambda>e. euclidean e face_to_compare) face_encodings)
            else if p = 1 then
              Inr (map (\<lambda>e. euclidean e (replicate d (hd face_to_compare))) face_encodings)
            else if d = 1 then
              Inr (map (\<lambda>e. euclidean (replicate p (hd e)) face_to_compare) face_encodings)
            else Inl ShapeError))"

text \<open>
  \<^verbatim>\<open>np.argmin\<close> and \<^verbatim>\<open>np.argmax\<close>: the first index holding the least (greatest)
  value; both raise on an empty array.
\<close>

fun first_min_index :: "real list \<Rightarrow> nat" where
  "first_min_index [] = 0"
| "first_min_index [x] = 0"
| "first_min_index (x # y # ys) =
     (let i = first_min_index (y # ys) in if x \<le> (y # ys) ! i then 0 else Suc i)"

fun first_max_index :: "real list \<Rightarrow> nat" where
  "first_max_index [] = 0"
| "first_max_index [x] = 0"
| "first_max_index (x # y # ys) =
     (let i = first_max_index (y # ys) in if (y # ys) ! i \<le> x then 0 else Suc i)"

definition np_argmin :: "real list \<Rightarrow> error + nat" where
  "np_argmin xs = (if xs = [] then Inl IndexError else Inr (first_min_index xs))"

definition np_argmax :: "real list \<Rightarrow> error + nat" where
  "np_argmax xs = (if xs = [] then Inl IndexError else Inr (first_max_index xs))"

definition FACE_RECOGNITION_THRESHOLD :: real where
  "FACE_RECOGNITION_THRESHOLD = 6 / 10"

text \<open>
  The standard branch of the per-face loop of \<^verbatim>\<open>recognize_faces\<close>: the defaults
  \<^verbatim>\<open>name = "Inconnu"\<close>, \<^verbatim>\<open>confidence = 0.0\<close>, overwritten when the registry is not empty.
  An exception (a shape mismatch, an index out of range) ends the request with
  status 500; it is the \<open>Inl\<close> result here.
\<close>

definition match_face ::
  "descriptor list \<Rightarrow> string list \<Rightarrow> real \<Rightarrow> descriptor \<Rightarrow> error + (string \<times> real)" where
  "match_face encodings names threshold face_encoding =
     (if encodings \<noteq> [] then
        (case face_distance encodings face_encoding of
           Inl e \<Rightarrow> Inl e
         | Inr face_distances \<Rightarrow>
             (case np_argmin face_distances of
                Inl e \<Rightarrow> Inl e
              | Inr best_match_index \<Rightarrow>
                  (let confidence = 1 - face_distances ! best_match_index
                   in if confidence > threshold then
                        (if best_match_index < length names
                         then Inr (names ! best_match_index, confidence)
                         else Inl IndexError)
                      else Inr (''Inconnu'', confidence))))
      else Inr (''Inconnu'', 0))"

section \<open>Detection with fallback\<close>

datatype FeatureExtractionMethod = HOG | CNN | CUSTOM_HOG | LBP

text \<open>
  \<^verbatim>\<open>FeatureExtractor.set_method\<close> on a string: the enum member whose value is the
  lower-cased string, \<^verbatim>\<open>HOG\<close> when there is none.
\<close>

definition set_method :: "string \<Rightarrow> FeatureExtractionMethod" where
  "set_method method =
     (let m = lower method
      in if m = ''hog'' then HOG
         else if m = ''cnn'' then CNN
         else if m = ''custom_hog'' then CUSTOM_HOG
         else if m = ''lbp'' then LBP
         else HOG)"

type_synonym face_location = "int \<times> int \<times> int \<times> int"

text \<open>
  The detectors themselves are external (face\_recognition, OpenCV cascades): each
  answers a list of boxes, possibly empty, or raises. The cascades answer
  \<open>(x, y, w, h)\<close>, converted to \<open>(top, right, bottom, left)\<close>. A cascade whose
  classifier file could not be loaded raises in \<^verbatim>\<open>detectMultiScale\<close>;
  \<^verbatim>\<open>_lbp_detection\<close> looks its file up under \<^verbatim>\<open>cv2.data.haarcascades\<close>.
\<close>

record 'i detectors =
  hog_face_locations :: "'i \<Rightarrow> error + face_location list"
  cnn_face_locations :: "'i \<Rightarrow> error + face_location list"
  haar_cascade :: "'i \<Rightarrow> error + (int \<times> int \<times> int \<times> int) list"
  lbp_cascade :: "'i \<Rightarrow> error + (int \<times> int \<times> int \<times> int) list"

definition to_face_location :: "int \<times> int \<times> int \<times> int \<Rightarrow> face_location" where
  "to_face_location r = (case r of (x, y, w, h) \<Rightarrow> (y, x + w, y + h, x))"

definition convert_faces ::
  "error + (int \<times> int \<times> int \<times> int) list \<Rightarrow> error + face_location list" where
  "convert_faces r =
     (case r of
        Inl e \<Rightarrow> Inl e
      | Inr opencv_faces \<Rightarrow> Inr (map to_face_location opencv_faces))"

definition detect_faces ::
  "'i detectors \<Rightarrow> FeatureExtractionMethod \<Rightarrow> 'i \<Rightarrow> error + face_location list" where
  "detect_faces d m img =
     (case m of
        HOG \<Rightarrow> hog_face_locations d img
      | CNN \<Rightarrow> cnn_face_locations d img
      | CUSTOM_HOG \<Rightarrow> convert_faces (haar_cascade d img)
      | LBP \<Rightarrow> convert_faces (lbp_cascade d img))"

text \<open>
  The detection step of \<^verbatim>\<open>recognize_faces\<close>: the boxes found, or the exception that
  ends the request with status 500. The second component lists the strategies run,
  in order, so that the number of detection passes can be stated. The retry test
  compares the request's \<^verbatim>\<open>method\<close> string itself with \<^verbatim>\<open>'hog'\<close>. The documented
  values of \<^verbatim>\<open>method\<close> are \<^verbatim>\<open>'hog'\<close>, \<^verbatim>\<open>'cnn'\<close>, \<^verbatim>\<open>'custom_hog'\<close> and \<^verbatim>\<open>'lbp'\<close>.
\<close>

definition documented_methods :: "string list" where
  "documented_methods = [''hog'', ''cnn'', ''custom_hog'', ''lbp'']"

definition locate_faces ::
  "'i detectors \<Rightarrow> string \<Rightarrow> 'i \<Rightarrow>
   (error + face_location list) \<times> FeatureExtractionMethod list" where
  "locate_faces d method img =
     (let configured = set_method method
      in case detect_faces d configured img of
           Inl e \<Rightarrow> (Inl e, [configured])
         | Inr face_locations \<Rightarrow>
             if face_locations = [] \<and> method \<noteq> ''hog''
             then (detect_faces d HOG img, [configured, HOG])
             else (Inr face_locations, [configured]))"

section \<open>The trainable classifier\<close>

text \<open>
  \<^verbatim>\<open>CNNFaceModel\<close> (app/services/cnn.py): the Keras model is opaque (\<open>'m\<close>).
\<close>

record 'm cnn_face_model =
  model :: "'m option"
  face_labels :: "string list"
  is_trained :: bool

definition endswith :: "string \<Rightarrow> string \<Rightarrow> bool" where
  "endswith s suf = (length suf \<le> length s \<and> drop (length s - length suf) s = suf)"

definition is_image_name :: "string \<Rightarrow> bool" where
  "is_image_name filename =
     (endswith (lower filename) ''.png'' \<or> endswith (lower filename) ''.jpg''
      \<or> endswith (lower filename) ''.jpeg'')"

text \<open>The scan of the folder in \<^verbatim>\<open>train\<close>: one label per person name, first seen first.\<close>

fun scan_labels :: "string list \<Rightarrow> string list \<Rightarrow> string list" where
  "scan_labels [] labels = labels"
| "scan_labels (filename # rest) labels =
     (if is_image_name filename then
        (let person_name = splitext_root filename
         in if person_name \<notin> set labels
            then scan_labels rest (labels @ [person_name])
            else scan_labels rest labels)
      else scan_labels rest labels)"

text \<open>
  \<^verbatim>\<open>train(known_faces_folder)\<close>, on the listing of the folder (\<open>None\<close> when the folder
  does not exist). Building the network (\<open>create_model\<close>, given the class count) and
  fitting it (\<open>fit\<close>) are external and may raise; writing the augmented images is
  taken to succeed. \<^verbatim>\<open>self.face_labels\<close> is reset and refilled before the class
  count is checked, and \<^verbatim>\<open>self.model\<close> is assigned before the fit.
\<close>

definition train ::
  "(nat \<Rightarrow> error + 'm) \<Rightarrow> ('m \<Rightarrow> error + 'm) \<Rightarrow>
   'm cnn_face_model \<Rightarrow> string list option \<Rightarrow> bool \<times> 'm cnn_face_model" where
  "train create_model fit self folder =
     (case folder of
        None \<Rightarrow> (False, self)
      | Some files \<Rightarrow>
          if files = [] then (False, self)
          else
            (let self1 = self\<lparr>face_labels := scan_labels files []\<rparr>
             in if length (face_labels self1) < 2 then (False, self1)
                else
                  (case create_model (length (face_labels self1)) of
                     Inl _ \<Rightarrow> (False, self1)
                   | Inr m \<Rightarrow>
                       (let self2 = self1\<lparr>model := Some m\<rparr>
                        in case fit m of
                             Inl _ \<Rightarrow> (False, self2)
                           | Inr m' \<Rightarrow> (True, self2\<lparr>model := Some m', is_trained := True\<rparr>)))))"

text \<open>
  \<^verbatim>\<open>predict(face_image)\<close>. Preprocessing and the network's forward pass are the
  parameter \<open>infer\<close>; every exception inside the \<^verbatim>\<open>try\<close> block gives
  \<^verbatim>\<open>("Erreur", 0)\<close>. The label is optional: \<^verbatim>\<open>None\<close> stands for no prediction.
\<close>

definition predict ::
  "('m \<Rightarrow> 'i \<Rightarrow> error + real list) \<Rightarrow> 'm cnn_face_model \<Rightarrow> 'i \<Rightarrow> string option \<times> real" where
  "predict infer self face_image =
     (case model self of
        None \<Rightarrow> (None, 0)
      | Some m \<Rightarrow>
          if \<not> is_trained self then (None, 0)
          else
            (case infer m face_image of
               Inl _ \<Rightarrow> (Some ''Erreur'', 0)
             | Inr predictions \<Rightarrow>
                 (case np_argmax predictions of
                    Inl _ \<Rightarrow> (Some ''Erreur'', 0)
                  | Inr best_index \<Rightarrow>
                      (let confidence = predictions ! best_index
                       in if confidence \<ge> 6 / 10 then
                            (if best_index < length (face_labels self)
                             then (Some (face_labels self ! best_index), confidence)
                             else (Some ''Erreur'', 0))
                          else (Some ''Inconnu'', confidence)))))"

section \<open>The hand-engineered descriptor\<close>

text \<open>
  A grayscale image is a list of rows of \<^verbatim>\<open>uint8\<close> pixels. \<^verbatim>\<open>_extract_lbp_features\<close>
  starts from \<^verbatim>\<open>np.zeros_like(image)\<close> and writes the code of every pixel that is
  not on the border.
\<close>

type_synonym gray_image = "8 word list list"

definition shape0 :: "'a list list \<Rightarrow> nat" where
  "shape0 img = length img"

definition shape1 :: "'a list list \<Rightarrow> nat" where
  "shape1 img = (case img of [] \<Rightarrow> 0 | row # _ \<Rightarrow> length row)"

definition lbp_code :: "gray_image \<Rightarrow> nat \<Rightarrow> nat \<Rightarrow> nat" where
  "lbp_code img i j =
     (let center = img ! i ! j
      in push_bit 7 (of_bool (img ! (i - 1) ! (j - 1) \<ge> center))
         OR push_bit 6 (of_bool (img ! (i - 1) ! j \<ge> center))
         OR push_bit 5 (of_bool (img ! (i - 1) ! (j + 1) \<ge> center))
         OR push_bit 4 (of_bool (img ! i ! (j + 1) \<ge> center))
         OR push_bit 3 (of_bool (img ! (i + 1) ! (j + 1) \<ge> center))
         OR push_bit 2 (of_bool (img ! (i + 1) ! j \<ge> center))
         OR push_bit 1 (of_bool (img ! (i + 1) ! (j - 1) \<ge> center))
         OR push_bit 0 (of_bool (img ! i ! (j - 1) \<ge> center)))"

definition set_px :: "nat list list \<Rightarrow> nat \<Rightarrow> nat \<Rightarrow> nat \<Rightarrow> nat list list" where
  "set_px a i j v = a[i := (a ! i)[j := v]]"

definition lbp_image :: "gray_image \<Rightarrow> nat list list" where
  "lbp_image img =
     foldl (\<lambda>acc i. foldl (\<lambda>acc j. set_px acc i j (lbp_code img i j)) acc [1..<shape1 img - 1])
       (replicate (shape0 img) (replicate (shape1 img) 0))
       [1..<shape0 img - 1]"

text \<open>\<^verbatim>\<open>np.histogram(values, bins=256, range=[0, 256])\<close> on integer values below 256.\<close>

definition histogram256 :: "nat list \<Rightarrow> nat list" where
  "histogram256 vals = map (\<lambda>k. count_list vals k) [0..<256]"

definition extract_lbp_features :: "gray_image \<Rightarrow> real list" where
  "extract_lbp_features img =
     (let hist = map real (histogram256 (concat (lbp_image img)))
      in map (\<lambda>c. c / (sum_list hist + 1 / 10 ^ 7)) hist)"

definition l2_norm :: "real list \<Rightarrow> real" where
  "l2_norm v = sqrt (\<Sum>x\<leftarrow>v. x\<^sup>2)"

text \<open>
  The tail of the loop body of \<^verbatim>\<open>_custom_feature_extraction\<close>: concatenate the HOG
  vector and the LBP histogram, divide by the norm when it is positive. The HOG
  descriptor of OpenCV is external (\<open>hog_compute\<close>, on the 128 by 128 crop).
\<close>

definition normalize_features :: "real list \<Rightarrow> real list" where
  "normalize_features combined_features =
     (let norm = l2_norm combined_features
      in if norm > 0 then map (\<lambda>x. x / norm) combined_features else combined_features)"

definition face_descriptor :: "(gray_image \<Rightarrow> real list) \<Rightarrow> gray_image \<Rightarrow> real list" where
  "face_descriptor hog_compute face_image =
     normalize_features (hog_compute face_image @ extract_lbp_features face_image)"

definition custom_feature_extraction ::
  "('g \<Rightarrow> face_location \<Rightarrow> gray_image) \<Rightarrow> (gray_image \<Rightarrow> real list) \<Rightarrow>
   'g \<Rightarrow> face_location list \<Rightarrow> real list list" where
  "custom_feature_extraction crop_resize hog_compute gray face_locations =
     map (\<lambda>loc. face_descriptor hog_compute (crop_resize gray loc)) face_locations"


text \<open>
  The codes of the pixels that are not on the border, row by row, and the histogram
  the specification describes: the 256-bin histogram of exactly these codes, divided
  by their count plus \<open>10\<^sup>-\<^sup>7\<close>. This second definition follows the specification's
  words; it is compared with \<open>extract_lbp_features\<close> below.
\<close>

definition interior_codes :: "gray_image \<Rightarrow> nat list" where
  "interior_codes img =
     concat (map (\<lambda>i. map (\<lambda>j. lbp_code img i j) [1..<shape1 img - 1]) [1..<shape0 img - 1])"

definition interior_only_histogram :: "gray_image \<Rightarrow> real list" where
  "interior_only_histogram img =
     (let hist = map real (histogram256 (interior_codes img))
      in map (\<lambda>c. c / (sum_list hist + 1 / 10 ^ 7)) hist)"

section \<open>Concrete inputs\<close>

text \<open>
  Images are numbered; image 0 shows no face, image \<open>i > 0\<close> shows one face whose
  encoding is the one-element vector \<open>[i]\<close>.
\<close>

definition demo_enc :: "nat \<Rightarrow> error + descriptor list" where
  "demo_enc i = (if i = 0 then Inr [] else Inr [[real i]])"

definition empty_world :: "nat world" where
  "empty_world =
     \<lparr>known_faces_folder = [], known_face_encodings = [], known_face_names = []\<rparr>"

text \<open>
  Detectors for numbered images: image 0 shows no face to any detector, image 1
  shows a face to the HOG detector only, image 2 to the CNN detector only, image 3
  to the Haar cascade only; the LBP cascade has no classifier and raises.
\<close>

definition demo_detectors :: "nat detectors" where
  "demo_detectors =
     \<lparr>hog_face_locations = (\<lambda>i. if i = 1 then Inr [(0, 10, 10, 0)] else Inr []),
      cnn_face_locations = (\<lambda>i. if i = 2 then Inr [(0, 10, 10, 0)] else Inr []),
      haar_cascade = (\<lambda>i. if i = 3 then Inr [(5, 0, 10, 10)] else Inr []),
      lbp_cascade = (\<lambda>_. Inl DetectorError)\<rparr>"

text \<open>
  A trained classifier over two labels, and an inference that raises on image 0, is
  confident of class 1 on image 1 and undecided on every other image.
\<close>

definition demo_model :: "nat cnn_face_model" where
  "demo_model = \<lparr>model = Some 7, face_labels = [''alice'', ''bob''], is_trained = True\<rparr>"

definition demo_infer :: "nat \<Rightarrow> nat \<Rightarrow> error + real list" where
  "demo_infer m img =
     (if img = 0 then Inl InferenceError
      else if img = 1 then Inr [2 / 10, 8 / 10]
      else Inr [1 / 2, 1 / 2])"

text \<open>The 128 by 128 crop whose pixels are all 0.\<close>

definition black_crop :: gray_image where
  "black_crop = replicate 128 (replicate 128 0)"

section \<open>Properties of the identity store\<close>

lemmas file_simps =
  allowed_file_def rsplit_ext_def lower_def lower_char_def ALLOWED_EXTENSIONS_def
  splitext_root_def secure_filename_def strip_chars_def filename_char_ok_def is_space_def

lemma filter_key_absent:
  "k \<notin> set (map fst al) \<Longrightarrow> filter (\<lambda>p. fst p = k) al = []"
  by (induction al) auto

lemma filter_key_update:
  "distinct (map fst al) \<Longrightarrow>
   filter (\<lambda>p. fst p = k) (AList.update k v al) = [(k, v)]"
  by (induction al) (auto simp: filter_key_absent)

lemma keys_update_present:
  "k \<in> set (map fst al) \<Longrightarrow> map fst (AList.update k v al) = map fst al"
  by (induction al) auto

lemma load_known_faces_folder [simp]:
  "known_faces_folder (snd (load_known_faces enc w)) = known_faces_folder w"
  by (simp add: load_known_faces_def split: prod.splits)

text \<open>The two registry lists stay equally long: names and encodings are appended together.\<close>

lemma scan_faces_lengths:
  "length encs = length names \<Longrightarrow>
   length (fst (scan_faces enc files (encs, names))) = length (snd (scan_faces enc files (encs, names)))"
  by (induction enc files "(encs, names)" arbitrary: encs names rule: scan_faces.induct)
     (auto split: sum.splits list.splits)

lemma load_known_faces_lengths:
  "length (known_face_encodings (snd (load_known_faces enc w)))
     = length (known_face_names (snd (load_known_faces enc w)))"
  using scan_faces_lengths [of "[]" "[]" enc "known_faces_folder w"]
  by (auto simp add: load_known_faces_def split: prod.splits)

lemma register_face_ok:
  assumes "upload_filename f \<noteq> []" "n \<noteq> []" "allowed_file (upload_filename f)"
    and "enc (upload_content f) = Inr (e # es)"
  shows "register_face sf enc f n w =
     (200, snd (load_known_faces enc (w\<lparr>known_faces_folder :=
         AList.update (sf n @ ''.jpg'') (upload_content f) (known_faces_folder w)\<rparr>)))"
  using assms by (simp add: register_face_def)

text \<open>
  C10. Enrollment and deletion address the store by \<open>sf name\<close>, not by the name: when
  two labels have the same sanitised form and both enrollments succeed, the store
  holds exactly one file \<^verbatim>\<open><sf name>.jpg\<close>, with the second image, and the second
  enrollment adds no entry; afterwards \<^verbatim>\<open>delete_face\<close> succeeds (status 200) for
  every name with that sanitised form, and removes the file. In every state of the
  store, \<^verbatim>\<open>delete_face\<close> succeeds for every name whose file \<^verbatim>\<open><sf name>.jpg\<close> is
  stored, and removes it. The store is a directory: its file names are distinct.
\<close>

theorem sanitized_key_store:
  assumes same: "sf n1 = sf n2"
    and d: "distinct (map fst (known_faces_folder w))"
    and f1: "upload_filename f1 \<noteq> []" "n1 \<noteq> []" "allowed_file (upload_filename f1)"
            "enc (upload_content f1) = Inr (e1 # es1)"
    and f2: "upload_filename f2 \<noteq> []" "n2 \<noteq> []" "allowed_file (upload_filename f2)"
            "enc (upload_content f2) = Inr (e2 # es2)"
    and r1: "register_face sf enc f1 n1 w = (s1, w1)"
    and r2: "register_face sf enc f2 n2 w1 = (s2, w2)"
  shows "s1 = 200 \<and> s2 = 200
       \<and> filter (\<lambda>p. fst p = sf n1 @ ''.jpg'') (known_faces_folder w2)
           = [(sf n1 @ ''.jpg'', upload_content f2)]
       \<and> map fst (known_faces_folder w2) = map fst (known_faces_folder w1)
       \<and> (\<forall>name. sf name = sf n1 \<longrightarrow>
             fst (delete_face sf enc name w2) = 200
           \<and> sf n1 @ ''.jpg''
               \<notin> set (map fst (known_faces_folder (snd (delete_face sf enc name w2)))))
       \<and> (\<forall>u name. sf name @ ''.jpg'' \<in> set (map fst (known_faces_folder u)) \<longrightarrow>
             fst (delete_face sf enc name u) = 200
           \<and> sf name @ ''.jpg''
               \<notin> set (map fst (known_faces_folder (snd (delete_face sf enc name u)))))"
proof -
  let ?k = "sf n1 @ ''.jpg''"
  from r1 have s1: "s1 = 200"
    and w1: "known_faces_folder w1 = AList.update ?k (upload_content f1) (known_faces_folder w)"
    using register_face_ok [of f1 n1 enc e1 es1 sf w] f1 by auto
  from r2 same have s2: "s2 = 200"
    and w2: "known_faces_folder w2 = AList.update ?k (upload_content f2) (known_faces_folder w1)"
    using register_face_ok [of f2 n2 enc e2 es2 sf w1] f2 by auto
  have d1: "distinct (map fst (known_faces_folder w1))"
    using d by (simp add: w1 distinct_update)
  have one: "filter (\<lambda>p. fst p = ?k) (known_faces_folder w2) = [(?k, upload_content f2)]"
    using d1 by (simp add: w2 filter_key_update)
  have keys: "map fst (known_faces_folder w2) = map fst (known_faces_folder w1)"
    unfolding w2 by (rule keys_update_present) (simp add: w1 dom_update)
  have del: "fst (delete_face sf enc name w2) = 200
           \<and> ?k \<notin> set (map fst (known_faces_folder (snd (delete_face sf enc name w2))))"
    if "sf name = sf n1" for name
    using that by (simp add: delete_face_def Let_def w2 dom_update delete_notin_dom)
  have del_any: "fst (delete_face sf enc name u) = 200
           \<and> sf name @ ''.jpg''
               \<notin> set (map fst (known_faces_folder (snd (delete_face sf enc name u))))"
    if "sf name @ ''.jpg'' \<in> set (map fst (known_faces_folder u))" for u :: "'a world" and name
    using that by (simp add: delete_face_def Let_def delete_notin_dom)
  show ?thesis using s1 s2 one keys del del_any by blast
qed

lemma register_a_b_first:
  "register_face secure_filename demo_enc
     \<lparr>upload_filename = ''one.jpg'', upload_content = 1\<rparr> ''a b'' empty_world
   = (200, \<lparr>known_faces_folder = [(''a_b.jpg'', 1)], known_face_encodings = [[1]],
            known_face_names = [''a_b'']\<rparr>)"
  by (simp add: register_face_def load_known_faces_def demo_enc_def empty_world_def file_simps)

lemma register_a_b_second:
  "register_face secure_filename demo_enc
     \<lparr>upload_filename = ''two.png'', upload_content = 2\<rparr> ''a_b''
     \<lparr>known_faces_folder = [(''a_b.jpg'', 1)], known_face_encodings = [[1]],
      known_face_names = [''a_b'']\<rparr>
   = (200, \<lparr>known_faces_folder = [(''a_b.jpg'', 2)], known_face_encodings = [[2]],
            known_face_names = [''a_b'']\<rparr>)"
  by (simp add: register_face_def load_known_faces_def demo_enc_def file_simps)

theorem sanitized_key_store_witness:
  "secure_filename ''a b'' = secure_filename ''a_b''
   \<and> register_face secure_filename demo_enc
        \<lparr>upload_filename = ''two.png'', upload_content = 2\<rparr> ''a_b''
        (snd (register_face secure_filename demo_enc
           \<lparr>upload_filename = ''one.jpg'', upload_content = 1\<rparr> ''a b'' empty_world))
      = (200, \<lparr>known_faces_folder = [(''a_b.jpg'', 2)], known_face_encodings = [[2]],
               known_face_names = [''a_b'']\<rparr>)
   \<and> filter (\<lambda>p. fst p = ''a_b.jpg'')
        (known_faces_folder \<lparr>known_faces_folder = [(''a_b.jpg'', 2::nat)],
           known_face_encodings = [[2]], known_face_names = [''a_b'']\<rparr>)
      = [(''a_b.jpg'', 2)]
   \<and> fst (delete_face secure_filename demo_enc ''a b''
        \<lparr>known_faces_folder = [(''a_b.jpg'', 2::nat)], known_face_encodings = [[2]],
         known_face_names = [''a_b'']\<rparr>) = 200"
proof -
  have same: "secure_filename ''a b'' = secure_filename ''a_b''"
    by (simp add: file_simps)
  have sf: "secure_filename ''a b'' = ''a_b''"
    by (simp add: file_simps)
  have d: "distinct (map fst (known_faces_folder empty_world))"
    by (simp add: empty_world_def)
  have a1: "allowed_file ''one.jpg''" and a2: "allowed_file ''two.png''"
    by (simp_all add: file_simps)
  have run: "register_face secure_filename demo_enc
        \<lparr>upload_filename = ''two.png'', upload_content = 2\<rparr> ''a_b''
        (snd (register_face secure_filename demo_enc
           \<lparr>upload_filename = ''one.jpg'', upload_content = 1\<rparr> ''a b'' empty_world))
      = (200, \<lparr>known_faces_folder = [(''a_b.jpg'', 2)], known_face_encodings = [[2]],
               known_face_names = [''a_b'']\<rparr>)"
    unfolding register_a_b_first snd_conv by (rule register_a_b_second)
  have store: "filter (\<lambda>p. fst p = ''a_b.jpg'')
        (known_faces_folder \<lparr>known_faces_folder = [(''a_b.jpg'', 2::nat)],
           known_face_encodings = [[2]], known_face_names = [''a_b'']\<rparr>)
      = [(''a_b.jpg'', 2)]
   \<and> fst (delete_face secure_filename demo_enc ''a b''
        \<lparr>known_faces_folder = [(''a_b.jpg'', 2::nat)], known_face_encodings = [[2]],
         known_face_names = [''a_b'']\<rparr>) = 200"
    using sanitized_key_store [OF same d _ _ _ _ _ _ _ _ register_a_b_first register_a_b_second,
        where ?e1.0 = "[1]" and ?es1.0 = "[]" and ?e2.0 = "[2]" and ?es2.0 = "[]"] a1 a2 same
    by (simp add: demo_enc_def sf)
  show ?thesis using same run store by blast
qed

text \<open>
  C2 (the code departs from the claim). The store holds \<^verbatim>\<open>alice.jpg\<close> and the
  registry holds alice. Enrolling a faceless image under the label alice answers
  400, but the upload was saved over \<^verbatim>\<open>alice.jpg\<close> before the face check, and the
  cleanup removes that file: the store has lost alice's image, and the next reload
  finds no identity.
\<close>

theorem register_face_no_face_deletes_previous_image:
  "register_face secure_filename demo_enc
     \<lparr>upload_filename = ''blank.jpg'', upload_content = 0\<rparr> ''alice''
     \<lparr>known_faces_folder = [(''alice.jpg'', 1)], known_face_encodings = [[1]],
      known_face_names = [''alice'']\<rparr>
   = (400, \<lparr>known_faces_folder = [], known_face_encodings = [[1]],
            known_face_names = [''alice'']\<rparr>)
   \<and> load_known_faces demo_enc
       \<lparr>known_faces_folder = [], known_face_encodings = [[1]],
        known_face_names = [''alice'']\<rparr> = (0, empty_world)"
  by (simp add: register_face_def load_known_faces_def demo_enc_def empty_world_def file_simps)

text \<open>
  C5 (the code departs from the claim). The store holds \<^verbatim>\<open>alice.png\<close>; the startup
  reload registers alice. Enrolling alice again writes \<^verbatim>\<open>alice.jpg\<close> beside it, and
  the reload appends one identity per file: the registry binds alice twice.
\<close>

theorem register_face_duplicates_label:
  "load_known_faces demo_enc
     \<lparr>known_faces_folder = [(''alice.png'', 1)], known_face_encodings = [],
      known_face_names = []\<rparr>
   = (1, \<lparr>known_faces_folder = [(''alice.png'', 1)], known_face_encodings = [[1]],
          known_face_names = [''alice'']\<rparr>)
   \<and> register_face secure_filename demo_enc
       \<lparr>upload_filename = ''new.jpg'', upload_content = 2\<rparr> ''alice''
       \<lparr>known_faces_folder = [(''alice.png'', 1)], known_face_encodings = [[1]],
        known_face_names = [''alice'']\<rparr>
     = (200, \<lparr>known_faces_folder = [(''alice.png'', 1), (''alice.jpg'', 2)],
              known_face_encodings = [[1], [2]],
              known_face_names = [''alice'', ''alice'']\<rparr>)"
  by (simp add: register_face_def load_known_faces_def demo_enc_def file_simps)


text \<open>
  Starting from an empty store the defect does not show: enrolling one label twice
  leaves one file and one identity, with the second encoding.
\<close>

lemma allowed_file_jpg: "allowed_file (r @ ''.jpg'')"
  by (simp add: allowed_file_def rsplit_ext_def lower_def lower_char_def ALLOWED_EXTENSIONS_def)

lemma enroll_twice_from_empty:
  assumes f1: "upload_filename f1 \<noteq> []" "allowed_file (upload_filename f1)"
            "enc (upload_content f1) = Inr (e1 # es1)"
    and f2: "upload_filename f2 \<noteq> []" "allowed_file (upload_filename f2)"
            "enc (upload_content f2) = Inr (e2 # es2)"
    and n: "n \<noteq> []"
  shows "snd (register_face sf enc f2 n (snd (register_face sf enc f1 n empty_world)))
       = \<lparr>known_faces_folder = [(sf n @ ''.jpg'', upload_content f2)],
          known_face_encodings = [e2],
          known_face_names = [splitext_root (sf n @ ''.jpg'')]\<rparr>"
  using assms
  by (simp add: register_face_def load_known_faces_def empty_world_def allowed_file_jpg Let_def)

text \<open>
  When the label has no file in the store yet, the failed enrollment does restore
  the store; the registry lists are never touched on that path.
\<close>

lemma register_face_no_face_fresh_label:
  assumes "upload_filename f \<noteq> []" "n \<noteq> []" "allowed_file (upload_filename f)"
    and "enc (upload_content f) = Inr []"
    and "sf n @ ''.jpg'' \<notin> fst ` set (known_faces_folder w)"
  shows "register_face sf enc f n w = (400, w)"
  using assms by (simp add: register_face_def delete_update_same)

section \<open>Properties of the matcher\<close>

lemma first_min_index_less: "xs \<noteq> [] \<Longrightarrow> first_min_index xs < length xs"
  by (induction xs rule: first_min_index.induct) (auto simp: Let_def)

lemma first_min_index_le:
  "i < length xs \<Longrightarrow> xs ! first_min_index xs \<le> xs ! i"
proof (induction xs arbitrary: i rule: first_min_index.induct)
  case 1
  then show ?case by simp
next
  case (2 x)
  then show ?case by simp
next
  case (3 x y ys)
  let ?k = "first_min_index (y # ys)"
  show ?case
  proof (cases i)
    case 0
    then show ?thesis by (auto simp: Let_def)
  next
    case (Suc j)
    with "3.prems" have "j < length (y # ys)" by simp
    then have "(y # ys) ! ?k \<le> (y # ys) ! j" by (rule "3.IH")
    with Suc show ?thesis by (auto simp: Let_def)
  qed
qed

lemma first_min_index_first:
  "i < first_min_index xs \<Longrightarrow> xs ! first_min_index xs < xs ! i"
proof (induction xs arbitrary: i rule: first_min_index.induct)
  case 1
  then show ?case by simp
next
  case (2 x)
  then show ?case by simp
next
  case (3 x y ys)
  let ?k = "first_min_index (y # ys)"
  show ?case
  proof (cases "x \<le> (y # ys) ! ?k")
    case True
    with "3.prems" show ?thesis by (simp add: Let_def)
  next
    case False
    show ?thesis
    proof (cases i)
      case 0
      with False show ?thesis by (simp add: Let_def)
    next
      case (Suc j)
      with "3.prems" False have "j < ?k" by (simp add: Let_def)
      then have "(y # ys) ! ?k < (y # ys) ! j" by (rule "3.IH")
      with Suc False show ?thesis by (simp add: Let_def)
    qed
  qed
qed

lemma first_max_index_less: "xs \<noteq> [] \<Longrightarrow> first_max_index xs < length xs"
  by (induction xs rule: first_max_index.induct) (auto simp: Let_def)

lemma first_max_index_ge:
  "i < length xs \<Longrightarrow> xs ! i \<le> xs ! first_max_index xs"
proof (induction xs arbitrary: i rule: first_max_index.induct)
  case 1
  then show ?case by simp
next
  case (2 x)
  then show ?case by simp
next
  case (3 x y ys)
  let ?k = "first_max_index (y # ys)"
  show ?case
  proof (cases i)
    case 0
    then show ?thesis by (auto simp: Let_def)
  next
    case (Suc j)
    with "3.prems" have "j < length (y # ys)" by simp
    then have "(y # ys) ! j \<le> (y # ys) ! ?k" by (rule "3.IH")
    with Suc show ?thesis by (auto simp: Let_def)
  qed
qed

lemma first_max_index_first:
  "i < first_max_index xs \<Longrightarrow> xs ! i < xs ! first_max_index xs"
proof (induction xs arbitrary: i rule: first_max_index.induct)
  case 1
  then show ?case by simp
next
  case (2 x)
  then show ?case by simp
next
  case (3 x y ys)
  let ?k = "first_max_index (y # ys)"
  show ?case
  proof (cases "(y # ys) ! ?k \<le> x")
    case True
    with "3.prems" show ?thesis by (simp add: Let_def)
  next
    case False
    show ?thesis
    proof (cases i)
      case 0
      with False show ?thesis by (simp add: Let_def)
    next
      case (Suc j)
      with "3.prems" False have "j < ?k" by (simp add: Let_def)
      then have "(y # ys) ! j < (y # ys) ! ?k" by (rule "3.IH")
      with Suc False show ?thesis by (simp add: Let_def)
    qed
  qed
qed

lemma face_distance_broadcast_examples:
  "face_distance [[3, 4]] [0] = Inr [5]"
  "face_distance [[3]] [0, 7] = Inr [5]"
  "face_distance [[1, 2], [3]] [1, 2] = Inl ShapeError"
  "face_distance [[1, 2, 3]] [1, 2] = Inl ShapeError"
  by (simp_all add: face_distance_def euclidean_def)

text \<open>
  C1 (as amended). For a registry that is not empty, whose name list is as long as
  its encoding list, and a probe of the encodings' length: \<open>match_face\<close> picks an
  index \<open>best\<close> whose Euclidean distance to the probe is least, the first such index;
  the confidence is 1 minus that distance, whatever its sign; the result is the
  name at \<open>best\<close> exactly when the confidence is strictly above the threshold, and
  otherwise the label \<^verbatim>\<open>Inconnu\<close> with the same confidence.
\<close>

theorem match_face_nearest:
  assumes ne: "encodings \<noteq> []"
    and len: "length names = length encodings"
    and dim: "\<forall>e \<in> set encodings. length e = length probe"
  shows "\<exists>best < length encodings.
           (\<forall>i < length encodings. euclidean (encodings ! best) probe \<le> euclidean (encodings ! i) probe)
         \<and> (\<forall>i < best. euclidean (encodings ! best) probe < euclidean (encodings ! i) probe)
         \<and> match_face encodings names t probe =
             Inr (if 1 - euclidean (encodings ! best) probe > t then names ! best else ''Inconnu'',
                  1 - euclidean (encodings ! best) probe)"
proof -
  let ?ds = "map (\<lambda>e. euclidean e probe) encodings"
  let ?b = "first_min_index ?ds"
  have fd: "face_distance encodings probe = Inr ?ds"
  proof -
    from ne have "hd encodings \<in> set encodings" by simp
    with dim have "length (hd encodings) = length probe" by blast
    with ne dim show ?thesis by (simp add: face_distance_def list_all_iff Let_def)
  qed
  have ds_ne: "?ds \<noteq> []" using ne by simp
  have b: "?b < length encodings"
    using first_min_index_less [OF ds_ne] by simp
  have least: "euclidean (encodings ! ?b) probe \<le> euclidean (encodings ! i) probe"
    if "i < length encodings" for i
    using first_min_index_le [of i ?ds] that b by simp
  have first: "euclidean (encodings ! ?b) probe < euclidean (encodings ! i) probe"
    if "i < ?b" for i
    using first_min_index_first [of i ?ds] that b by simp
  have res: "match_face encodings names t probe =
             Inr (if 1 - euclidean (encodings ! ?b) probe > t then names ! ?b else ''Inconnu'',
                  1 - euclidean (encodings ! ?b) probe)"
    using ne b len by (simp add: match_face_def fd np_argmin_def Let_def)
  show ?thesis using b least first res by blast
qed

theorem match_face_nearest_witness:
  "[[3, 4], [0, 0], [0, 0]] \<noteq> ([] :: descriptor list)
   \<and> length [''alice'', ''bob'', ''carol''] = length [[3, 4], [0, 0], [0, 0 :: real]]
   \<and> match_face [[3, 4], [0, 0], [0, 0]] [''alice'', ''bob'', ''carol'']
         FACE_RECOGNITION_THRESHOLD [0, 0] = Inr (''bob'', 1)"
  using match_face_nearest [of "[[3, 4], [0, 0], [0, 0]]" "[''alice'', ''bob'', ''carol'']"
      "[0, 0]" FACE_RECOGNITION_THRESHOLD]
  by (simp add: match_face_def face_distance_def euclidean_def np_argmin_def
      FACE_RECOGNITION_THRESHOLD_def)

text \<open>
  C1 as stated fails on the rejection label: one identity at distance 1 from the
  probe gives confidence 0, below the threshold, and the label returned is
  \<^verbatim>\<open>Inconnu\<close>, not \<^verbatim>\<open>Unknown\<close>.
\<close>

theorem match_face_rejection_label:
  "match_face [[0]] [''alice''] FACE_RECOGNITION_THRESHOLD [1] = Inr (''Inconnu'', 0)
   \<and> match_face [[0]] [''alice''] FACE_RECOGNITION_THRESHOLD [1] \<noteq> Inr (''Unknown'', 0)"
  by (simp add: match_face_def face_distance_def euclidean_def np_argmin_def
      FACE_RECOGNITION_THRESHOLD_def)

text \<open>
  C4 (as amended). Against an empty registry every probe, at every threshold, gets
  the pair \<^verbatim>\<open>("Inconnu", 0.0)\<close>, and no exception is raised.
\<close>

theorem match_face_empty_registry:
  "match_face [] names t probe = Inr (''Inconnu'', 0)"
  by (simp add: match_face_def)

text \<open>C4 as stated fails on the label: the pair is not \<^verbatim>\<open>("Unknown", 0.0)\<close>.\<close>

theorem match_face_empty_registry_label:
  "match_face [] [] FACE_RECOGNITION_THRESHOLD [1] = Inr (''Inconnu'', 0)
   \<and> match_face [] [] FACE_RECOGNITION_THRESHOLD [1] \<noteq> Inr (''Unknown'', 0)"
  by (simp add: match_face_def)

section \<open>Properties of the detection fallback\<close>

lemma set_method_documented:
  "set_method ''hog'' = HOG" "set_method ''cnn'' = CNN"
  "set_method ''custom_hog'' = CUSTOM_HOG" "set_method ''lbp'' = LBP"
  by (simp_all add: set_method_def lower_def lower_char_def)

text \<open>
  C9. For a request with one of the documented method names: when the configured
  strategy is not HOG and returns no box, detection runs exactly twice, the
  configured strategy and then HOG, and the outcome of the HOG pass is the outcome
  of the step; when the configured strategy returns at least one box, it is the only
  pass; when the configured strategy is HOG, it is the only pass, whatever it
  returns.
\<close>

theorem locate_faces_fallback:
  assumes doc: "method \<in> set documented_methods"
  shows "(set_method method \<noteq> HOG \<and> detect_faces d (set_method method) img = Inr [] \<longrightarrow>
            locate_faces d method img = (detect_faces d HOG img, [set_method method, HOG]))
       \<and> (\<forall>boxes. boxes \<noteq> [] \<and> detect_faces d (set_method method) img = Inr boxes \<longrightarrow>
            locate_faces d method img = (Inr boxes, [set_method method]))
       \<and> (set_method method = HOG \<longrightarrow>
            locate_faces d method img = (detect_faces d HOG img, [HOG]))"
proof (intro conjI impI allI)
  assume a: "set_method method \<noteq> HOG \<and> detect_faces d (set_method method) img = Inr []"
  then have "method \<noteq> ''hog''" using set_method_documented(1) by auto
  with a show "locate_faces d method img = (detect_faces d HOG img, [set_method method, HOG])"
    by (simp add: locate_faces_def Let_def)
next
  fix boxes
  assume "boxes \<noteq> [] \<and> detect_faces d (set_method method) img = Inr boxes"
  then show "locate_faces d method img = (Inr boxes, [set_method method])"
    by (simp add: locate_faces_def Let_def)
next
  assume h: "set_method method = HOG"
  from doc have "method = ''hog'' \<or> method = ''cnn'' \<or> method = ''custom_hog'' \<or> method = ''lbp''"
    by (simp add: documented_methods_def)
  with h have m: "method = ''hog''"
    using set_method_documented by auto
  show "locate_faces d method img = (detect_faces d HOG img, [HOG])"
    unfolding m
    by (cases "detect_faces d HOG img")
       (simp_all add: locate_faces_def Let_def set_method_documented)
qed

theorem locate_faces_fallback_witness:
  "''cnn'' \<in> set documented_methods
   \<and> set_method ''cnn'' \<noteq> HOG \<and> detect_faces demo_detectors (set_method ''cnn'') 1 = Inr []
   \<and> locate_faces demo_detectors ''cnn'' 1 = (Inr [(0, 10, 10, 0)], [CNN, HOG])
   \<and> locate_faces demo_detectors ''custom_hog'' 3 = (Inr [(0, 15, 10, 5)], [CUSTOM_HOG])
   \<and> set_method ''hog'' = HOG
   \<and> locate_faces demo_detectors ''hog'' 0 = (Inr [], [HOG])"
proof -
  have c: "''cnn'' \<in> set documented_methods" and u: "''custom_hog'' \<in> set documented_methods"
    and g: "''hog'' \<in> set documented_methods"
    by (simp_all add: documented_methods_def)
  have e: "detect_faces demo_detectors (set_method ''cnn'') 1 = Inr []"
    and f: "detect_faces demo_detectors (set_method ''custom_hog'') 3 = Inr [(0, 15, 10, 5)]"
    and z: "detect_faces demo_detectors HOG 0 = Inr []"
    and o: "detect_faces demo_detectors HOG 1 = Inr [(0, 10, 10, 0)]"
    by (simp_all add: set_method_documented detect_faces_def demo_detectors_def
        convert_faces_def to_face_location_def)
  show ?thesis
    using c e f z o locate_faces_fallback [OF c, of demo_detectors 1]
      locate_faces_fallback [OF u, of demo_detectors 3]
      locate_faces_fallback [OF g, of demo_detectors 0]
    by (simp add: set_method_documented)
qed

text \<open>
  A detector that raises ends the step at once: there is no second pass. So it is
  with the LBP cascade of the concrete detectors.
\<close>

lemma locate_faces_detector_raises:
  "detect_faces d (set_method method) img = Inl e \<Longrightarrow>
   locate_faces d method img = (Inl e, [set_method method])"
  by (simp add: locate_faces_def Let_def)

lemma locate_faces_lbp_raises:
  "locate_faces demo_detectors ''lbp'' 1 = (Inl DetectorError, [LBP])"
  by (simp add: locate_faces_def set_method_documented detect_faces_def demo_detectors_def
      convert_faces_def)

text \<open>
  Outside the documented names the retry test and the configured strategy can
  disagree, since \<open>set_method\<close> lower-cases the name and maps an unknown name to HOG
  while the test compares the name as given: \<^verbatim>\<open>'HOG'\<close> configures HOG, and an image
  without a face is scanned twice with it.
\<close>

lemma locate_faces_undocumented_name:
  "''HOG'' \<notin> set documented_methods \<and> set_method ''HOG'' = HOG
   \<and> locate_faces demo_detectors ''HOG'' 0 = (Inr [], [HOG, HOG])"
  by (simp add: locate_faces_def set_method_def lower_def lower_char_def detect_faces_def
      demo_detectors_def documented_methods_def)

section \<open>Properties of the classifier\<close>

text \<open>
  With fewer than two labels in the folder \<open>train\<close> answers \<open>False\<close> and keeps the
  model and the trained flag, but the label list is the one just scanned.
\<close>

lemma train_too_few_labels:
  assumes "files \<noteq> []" and "length (scan_labels files []) < 2"
  shows "train create_model fit self (Some files)
           = (False, self\<lparr>face_labels := scan_labels files []\<rparr>)"
  using assms by (simp add: train_def)

text \<open>
  C3 (the code departs from the claim). A classifier trained on alice and bob is
  retrained when the folder holds only \<^verbatim>\<open>alice.jpg\<close>: training fails, the model and
  the trained flag are kept, but the label list is now \<^verbatim>\<open>[alice]\<close>.
\<close>

theorem train_single_label_overwrites_labels:
  "train (\<lambda>n. Inr n) (\<lambda>m. Inr m)
     \<lparr>model = Some (2::nat), face_labels = [''alice'', ''bob''], is_trained = True\<rparr>
     (Some [''alice.jpg''])
   = (False, \<lparr>model = Some 2, face_labels = [''alice''], is_trained = True\<rparr>)"
  by (simp add: train_def is_image_name_def endswith_def splitext_root_def lower_def
      lower_char_def)

text \<open>
  C8. \<open>predict\<close> answers \<^verbatim>\<open>(None, 0)\<close> unless the classifier is trained and holds a
  model. When it is: an exception during inference gives \<^verbatim>\<open>("Erreur", 0)\<close>, and so
  does an empty output; otherwise \<open>k\<close> is the first index of greatest probability,
  that probability is the confidence, and the answer is the label at \<open>k\<close> when the
  confidence is at least 0.6 (\<^verbatim>\<open>("Erreur", 0)\<close> should the label list be too short),
  and \<^verbatim>\<open>("Inconnu", confidence)\<close> when it is below 0.6.
\<close>

theorem predict_cases:
  "(\<not> (is_trained self \<and> model self \<noteq> None) \<longrightarrow> predict infer self img = (None, 0))
   \<and> (is_trained self \<and> model self = Some m \<longrightarrow>
        (case infer m img of
           Inl e \<Rightarrow> predict infer self img = (Some ''Erreur'', 0)
         | Inr ps \<Rightarrow>
             if ps = [] then predict infer self img = (Some ''Erreur'', 0)
             else \<exists>k < length ps.
                    (\<forall>i < length ps. ps ! i \<le> ps ! k)
                  \<and> (\<forall>i < k. ps ! i < ps ! k)
                  \<and> predict infer self img =
                      (if ps ! k \<ge> 6 / 10 then
                         (if k < length (face_labels self)
                          then (Some (face_labels self ! k), ps ! k)
                          else (Some ''Erreur'', 0))
                       else (Some ''Inconnu'', ps ! k))))"
proof (intro conjI impI)
  assume "\<not> (is_trained self \<and> model self \<noteq> None)"
  then show "predict infer self img = (None, 0)"
    by (auto simp: predict_def split: option.splits)
next
  assume tr: "is_trained self \<and> model self = Some m"
  show "case infer m img of
           Inl e \<Rightarrow> predict infer self img = (Some ''Erreur'', 0)
         | Inr ps \<Rightarrow>
             if ps = [] then predict infer self img = (Some ''Erreur'', 0)
             else \<exists>k < length ps.
                    (\<forall>i < length ps. ps ! i \<le> ps ! k)
                  \<and> (\<forall>i < k. ps ! i < ps ! k)
                  \<and> predict infer self img =
                      (if ps ! k \<ge> 6 / 10 then
                         (if k < length (face_labels self)
                          then (Some (face_labels self ! k), ps ! k)
                          else (Some ''Erreur'', 0))
                       else (Some ''Inconnu'', ps ! k))"
  proof (cases "infer m img")
    case (Inl e)
    with tr show ?thesis by (simp add: predict_def)
  next
    case (Inr ps)
    show ?thesis
    proof (cases "ps = []")
      case True
      with tr Inr show ?thesis by (simp add: predict_def np_argmax_def)
    next
      case False
      let ?k = "first_max_index ps"
      have k: "?k < length ps" using False by (rule first_max_index_less)
      have mx: "\<forall>i < length ps. ps ! i \<le> ps ! ?k"
        using first_max_index_ge by blast
      have fst: "\<forall>i < ?k. ps ! i < ps ! ?k"
        using first_max_index_first by blast
      have res: "predict infer self img =
                      (if ps ! ?k \<ge> 6 / 10 then
                         (if ?k < length (face_labels self)
                          then (Some (face_labels self ! ?k), ps ! ?k)
                          else (Some ''Erreur'', 0))
                       else (Some ''Inconnu'', ps ! ?k))"
        using tr Inr False by (simp add: predict_def np_argmax_def Let_def)
      from k mx fst res have "\<exists>k < length ps.
                    (\<forall>i < length ps. ps ! i \<le> ps ! k)
                  \<and> (\<forall>i < k. ps ! i < ps ! k)
                  \<and> predict infer self img =
                      (if ps ! k \<ge> 6 / 10 then
                         (if k < length (face_labels self)
                          then (Some (face_labels self ! k), ps ! k)
                          else (Some ''Erreur'', 0))
                       else (Some ''Inconnu'', ps ! k))"
        by blast
      with Inr False show ?thesis by simp
    qed
  qed
qed

theorem predict_cases_witness:
  "is_trained demo_model \<and> model demo_model = Some 7
   \<and> predict demo_infer demo_model 0 = (Some ''Erreur'', 0)
   \<and> predict demo_infer demo_model 1 = (Some ''bob'', 8 / 10)
   \<and> predict demo_infer demo_model 2 = (Some ''Inconnu'', 1 / 2)
   \<and> predict demo_infer (demo_model\<lparr>is_trained := False\<rparr>) 1 = (None, 0)"
  using predict_cases [of demo_model demo_infer 0 7]
    predict_cases [of "demo_model\<lparr>is_trained := False\<rparr>" demo_infer 1 7]
  by (simp add: demo_model_def demo_infer_def predict_def np_argmax_def)


section \<open>Properties of the LBP histogram\<close>

text \<open>
  The bit layout of a code: bit 7 is the comparison with the upper left neighbour,
  and the bits below follow the neighbours clockwise, down to bit 0 for the left
  neighbour.
\<close>

lemma lbp_code_bits:
  "bit (lbp_code img i j) 7 = (img ! (i - 1) ! (j - 1) \<ge> img ! i ! j)"
  "bit (lbp_code img i j) 6 = (img ! (i - 1) ! j \<ge> img ! i ! j)"
  "bit (lbp_code img i j) 5 = (img ! (i - 1) ! (j + 1) \<ge> img ! i ! j)"
  "bit (lbp_code img i j) 4 = (img ! i ! (j + 1) \<ge> img ! i ! j)"
  "bit (lbp_code img i j) 3 = (img ! (i + 1) ! (j + 1) \<ge> img ! i ! j)"
  "bit (lbp_code img i j) 2 = (img ! (i + 1) ! j \<ge> img ! i ! j)"
  "bit (lbp_code img i j) 1 = (img ! (i + 1) ! (j - 1) \<ge> img ! i ! j)"
  "bit (lbp_code img i j) 0 = (img ! i ! (j - 1) \<ge> img ! i ! j)"
  by (simp_all add: lbp_code_def Let_def bit_or_iff bit_push_bit_iff bit_of_bool_iff bit_Suc_0_iff)

text \<open>The two nested loops, as a grid: codes inside, zeros on the border.\<close>

lemma fold_row:
  "foldl (\<lambda>r j. r[j := f j]) r [a..<b] =
     map (\<lambda>j. if a \<le> j \<and> j < b then f j else r ! j) [0..<length r]"
proof (induction b)
  case 0
  then show ?case by (simp add: map_nth)
next
  case (Suc b)
  show ?case
  proof (cases "a \<le> b")
    case True
    then have "foldl (\<lambda>r j. r[j := f j]) r [a..<Suc b]
        = (foldl (\<lambda>r j. r[j := f j]) r [a..<b])[b := f b]"
      by simp
    also have "\<dots> = (map (\<lambda>j. if a \<le> j \<and> j < b then f j else r ! j) [0..<length r])[b := f b]"
      by (simp only: Suc.IH)
    also have "\<dots> = map (\<lambda>j. if a \<le> j \<and> j < Suc b then f j else r ! j) [0..<length r]"
      using True by (auto intro!: nth_equalityI simp: nth_list_update less_Suc_eq)
    finally show ?thesis .
  next
    case False
    then show ?thesis by (auto simp: map_nth intro!: nth_equalityI)
  qed
qed

lemma fold_px:
  "foldl (\<lambda>acc j. set_px acc i j (f j)) g js = g[i := foldl (\<lambda>r j. r[j := f j]) (g ! i) js]"
proof (induction js arbitrary: g)
  case Nil
  then show ?case by simp
next
  case (Cons j js)
  have "foldl (\<lambda>acc j. set_px acc i j (f j)) g (j # js)
      = (set_px g i j (f j))[i := foldl (\<lambda>r j. r[j := f j]) (set_px g i j (f j) ! i) js]"
    by (simp add: Cons.IH)
  also have "\<dots> = g[i := foldl (\<lambda>r j. r[j := f j]) (g ! i) (j # js)]"
    by (cases "i < length g") (simp_all add: set_px_def list_update_beyond)
  finally show ?case .
qed

lemma fold_rows:
  "foldl (\<lambda>g i. g[i := F i (g ! i)]) g [a..<b] =
     map (\<lambda>i. if a \<le> i \<and> i < b then F i (g ! i) else g ! i) [0..<length g]"
proof (induction b)
  case 0
  then show ?case by (simp add: map_nth)
next
  case (Suc b)
  show ?case
  proof (cases "a \<le> b")
    case True
    let ?m = "map (\<lambda>i. if a \<le> i \<and> i < b then F i (g ! i) else g ! i) [0..<length g]"
    have "foldl (\<lambda>g i. g[i := F i (g ! i)]) g [a..<Suc b] = ?m[b := F b (?m ! b)]"
      using True by (simp add: Suc.IH)
    also have "\<dots> = map (\<lambda>i. if a \<le> i \<and> i < Suc b then F i (g ! i) else g ! i) [0..<length g]"
      using True by (auto intro!: nth_equalityI simp: nth_list_update less_Suc_eq)
    finally show ?thesis .
  next
    case False
    then show ?thesis by (auto simp: map_nth intro!: nth_equalityI)
  qed
qed

lemma lbp_image_grid:
  "lbp_image img =
     map (\<lambda>i. if 1 \<le> i \<and> i < shape0 img - 1
               then map (\<lambda>j. if 1 \<le> j \<and> j < shape1 img - 1 then lbp_code img i j else 0)
                      [0..<shape1 img]
               else replicate (shape1 img) 0)
       [0..<shape0 img]"
  unfolding lbp_image_def fold_px fold_row
  by (subst fold_rows) (auto intro!: nth_equalityI)


lemma lbp_code_less: "lbp_code img i j < 256"
proof -
  have "take_bit 8 (lbp_code img i j) = lbp_code img i j"
    by (simp add: lbp_code_def Let_def take_bit_or take_bit_push_bit)
  then have "lbp_code img i j < 2 ^ 8"
    by (simp only: take_bit_nat_eq_self_iff)
  then show ?thesis by simp
qed

lemma border_map:
  "2 \<le> n \<Longrightarrow>
   map (\<lambda>i. if 1 \<le> i \<and> i < n - 1 then f i else z) [0..<n] = z # map f [1..<n - 1] @ [z]"
  by (rule nth_equalityI) (auto simp: nth_Cons' nth_append)

lemma count_list_replicate:
  "count_list (replicate n x) k = (if x = k then n else 0)"
  by (induction n) auto

lemma count_lbp_image:
  assumes "2 \<le> shape0 img" "2 \<le> shape1 img"
  shows "count_list (concat (lbp_image img)) k =
           count_list (interior_codes img) k
           + (if k = 0 then 2 * shape1 img + 2 * (shape0 img - 2) else 0)"
proof -
  let ?h = "shape0 img" and ?w = "shape1 img"
  let ?row = "\<lambda>i. 0 # map (\<lambda>j. lbp_code img i j) [1..<?w - 1] @ [0]"
  have rows: "map (\<lambda>j. if 1 \<le> j \<and> j < ?w - 1 then lbp_code img i j else 0) [0..<?w] = ?row i"
    for i
    using assms(2) by (rule border_map)
  have grid: "lbp_image img = replicate ?w 0 # map ?row [1..<?h - 1] @ [replicate ?w 0]"
    unfolding lbp_image_grid rows using assms(1) by (rule border_map)
  have "count_list (concat (lbp_image img)) k =
          (if k = 0 then ?w else 0)
          + (\<Sum>i\<leftarrow>[1..<?h - 1]. (if k = 0 then 2 else 0)
                + count_list (map (\<lambda>j. lbp_code img i j) [1..<?w - 1]) k)
          + (if k = 0 then ?w else 0)"
    by (simp add: grid count_list_concat count_list_replicate comp_def cong: map_cong)
  also have "\<dots> = count_list (interior_codes img) k
           + (if k = 0 then 2 * ?w + 2 * (?h - 2) else 0)"
    by (simp add: sum_list_addf sum_list_triv interior_codes_def count_list_concat comp_def
        numeral_2_eq_2)
  finally show ?thesis .
qed

lemma sum_count_list:
  "\<forall>v \<in> set vals. v < n \<Longrightarrow> (\<Sum>k\<leftarrow>[0..<n]. count_list vals k) = length vals"
proof (induction vals)
  case Nil
  then show ?case by simp
next
  case (Cons v vs)
  have one: "(\<Sum>k\<leftarrow>[0..<n]. if v = k then 1 else 0) = (1::nat)"
    using Cons.prems by (simp add: interv_sum_list_conv_sum_set_nat)
  have "(\<Sum>k\<leftarrow>[0..<n]. count_list (v # vs) k)
      = (\<Sum>k\<leftarrow>[0..<n]. (if v = k then 1 else 0) + count_list vs k)"
    by (rule arg_cong [where f = sum_list]) (auto simp: )
  also have "\<dots> = 1 + length vs"
    using Cons by (simp add: sum_list_addf one)
  finally show ?case by simp
qed


lemma length_concat_lbp_image:
  "length (concat (lbp_image img)) = shape0 img * shape1 img"
  by (simp add: lbp_image_grid length_concat comp_def if_distrib [of length] sum_list_triv
      cong: if_cong)

lemma lbp_image_values: "\<forall>v \<in> set (concat (lbp_image img)). v < 256"
  by (auto simp: lbp_image_grid lbp_code_less split: if_splits)

lemma real_sum_list: "real (sum_list xs) = sum_list (map real xs)"
  by (induction xs) simp_all

lemma shape1_replicate: "shape1 (replicate n r) = (if n = 0 then 0 else length r)"
  by (cases n) (simp_all add: shape1_def)

lemma sum_histogram256:
  "\<forall>v \<in> set vals. v < 256 \<Longrightarrow> sum_list (map real (histogram256 vals)) = real (length vals)"
proof -
  assume "\<forall>v \<in> set vals. v < 256"
  then have "(\<Sum>k\<leftarrow>[0..<256]. count_list vals k) = length vals"
    by (rule sum_count_list)
  then have "real (sum_list (histogram256 vals)) = real (length vals)"
    by (simp add: histogram256_def)
  then show ?thesis by (simp add: real_sum_list)
qed

lemma lbp_features_general:
  assumes "2 \<le> shape0 img" "2 \<le> shape1 img"
  shows "extract_lbp_features img =
     map (\<lambda>k. (real (count_list (interior_codes img) k)
                 + (if k = 0 then real (2 * shape1 img + 2 * (shape0 img - 2)) else 0))
               / (real (shape0 img * shape1 img) + 1 / 10 ^ 7)) [0..<256]"
proof -
  have total: "sum_list (map real (histogram256 (concat (lbp_image img))))
      = real (shape0 img * shape1 img)"
    using sum_histogram256 [OF lbp_image_values] by (simp only: length_concat_lbp_image)
  show ?thesis
    unfolding extract_lbp_features_def Let_def total
    by (simp add: histogram256_def count_lbp_image [OF assms] comp_def)
qed

lemma length_interior_codes:
  "length (interior_codes img) = (shape0 img - 2) * (shape1 img - 2)"
  by (simp add: interior_codes_def length_concat comp_def sum_list_triv numeral_2_eq_2)

text \<open>
  C6 (as amended). For a 128 by 128 crop the LBP component has 256 bins; bin \<open>k\<close>
  counts the interior pixels whose code is \<open>k\<close>, bin 0 counts the 508 border pixels
  as well (they keep the initial 0), and every bin is divided by the number of all
  pixels, 16384, plus \<open>10\<^sup>-\<^sup>7\<close>. There are 15876 interior codes.
\<close>

theorem lbp_histogram_counts_border:
  assumes "length img = 128" and "\<forall>row \<in> set img. length row = 128"
  shows "extract_lbp_features img =
           map (\<lambda>k. (real (count_list (interior_codes img) k) + (if k = 0 then 508 else 0))
                     / (16384 + 1 / 10 ^ 7)) [0..<256]
         \<and> length (interior_codes img) = 15876"
proof -
  from assms have h: "shape0 img = 128" and w: "shape1 img = 128"
    by (auto simp: shape0_def shape1_def split: list.splits)
  show ?thesis
    using lbp_features_general [of img] length_interior_codes [of img] by (simp add: h w)
qed

lemma concat_replicate_replicate:
  "concat (replicate n (replicate m x)) = replicate (n * m) x"
  by (induction n) (simp_all add: replicate_add)

lemma lbp_code_black:
  "1 \<le> i \<Longrightarrow> i < 127 \<Longrightarrow> 1 \<le> j \<Longrightarrow> j < 127 \<Longrightarrow> lbp_code black_crop i j = 255"
  by (simp add: lbp_code_def black_crop_def)

lemma interior_codes_black: "interior_codes black_crop = replicate 15876 255"
proof -
  have h: "shape0 black_crop = 128" and w: "shape1 black_crop = 128"
    by (simp_all add: shape0_def shape1_replicate black_crop_def)
  have row: "map (\<lambda>j. lbp_code black_crop i j) [1..<127] = replicate 126 255"
    if "i \<in> set [1..<127]" for i
  proof -
    have "map (\<lambda>j. lbp_code black_crop i j) [1..<127] = map (\<lambda>j. 255) [1..<127]"
      using that by (intro map_cong refl) (simp add: lbp_code_black)
    then show ?thesis by (simp add: map_replicate_const)
  qed
  have eq: "map (\<lambda>i. map (\<lambda>j. lbp_code black_crop i j) [1..<127]) [1..<127]
        = map (\<lambda>i. replicate 126 255) [1..<127]"
    by (intro map_cong refl) (rule row)
  have "interior_codes black_crop
      = concat (map (\<lambda>i. map (\<lambda>j. lbp_code black_crop i j) [1..<127]) [1..<127])"
    by (simp add: interior_codes_def h w)
  also have "\<dots> = concat (map (\<lambda>i. replicate 126 255) [1..<127])"
    by (simp only: eq)
  also have "\<dots> = concat (replicate 126 (replicate 126 255))"
    by (simp add: map_replicate_const)
  also have "\<dots> = replicate 15876 255"
    by (simp add: concat_replicate_replicate)
  finally show ?thesis .
qed


theorem lbp_histogram_counts_border_witness:
  "length black_crop = 128 \<and> list_all (\<lambda>row. length row = 128) black_crop
   \<and> extract_lbp_features black_crop ! 0 = 508 / (16384 + 1 / 10 ^ 7)
   \<and> extract_lbp_features black_crop ! 255 = 15876 / (16384 + 1 / 10 ^ 7)"
proof -
  have l: "length black_crop = 128" and r: "\<forall>row \<in> set black_crop. length row = 128"
    by (simp_all add: black_crop_def)
  have f: "extract_lbp_features black_crop =
           map (\<lambda>k. (real (count_list (interior_codes black_crop) k) + (if k = 0 then 508 else 0))
                     / (16384 + 1 / 10 ^ 7)) [0..<256]"
    using lbp_histogram_counts_border [OF l r] by simp
  have "extract_lbp_features black_crop ! 0 = 508 / (16384 + 1 / 10 ^ 7)"
    unfolding f by (simp add: interior_codes_black count_list_replicate del: upt_rec_numeral)
  moreover have "extract_lbp_features black_crop ! 255 = 15876 / (16384 + 1 / 10 ^ 7)"
    unfolding f by (simp add: interior_codes_black count_list_replicate del: upt_rec_numeral)
  ultimately show ?thesis using l r by (simp add: list_all_iff)
qed

text \<open>
  C6 as stated fails on the all-black crop: every interior code is 255, so the
  histogram of the interior codes alone has nothing in bin 0, while the computed
  feature has 508 / (16384 + \<open>10\<^sup>-\<^sup>7\<close>) there.
\<close>

theorem lbp_histogram_not_interior_only:
  "extract_lbp_features black_crop ! 0 = 508 / (16384 + 1 / 10 ^ 7)
   \<and> interior_only_histogram black_crop ! 0 = 0
   \<and> extract_lbp_features black_crop \<noteq> interior_only_histogram black_crop"
proof -
  have l: "length black_crop = 128" and r: "\<forall>row \<in> set black_crop. length row = 128"
    by (simp_all add: black_crop_def)
  have f: "extract_lbp_features black_crop =
           map (\<lambda>k. (real (count_list (interior_codes black_crop) k) + (if k = 0 then 508 else 0))
                     / (16384 + 1 / 10 ^ 7)) [0..<256]"
    using lbp_features_general [of black_crop]
    by (simp add: shape0_def shape1_replicate black_crop_def)
  have a: "extract_lbp_features black_crop ! 0 = 508 / (16384 + 1 / 10 ^ 7)"
    unfolding f by (simp add: interior_codes_black count_list_replicate del: upt_rec_numeral)
  have b: "interior_only_histogram black_crop ! 0 = 0"
    by (simp add: interior_only_histogram_def histogram256_def interior_codes_black
        count_list_replicate Let_def del: upt_rec_numeral)
  from a b have "extract_lbp_features black_crop ! 0 \<noteq> interior_only_histogram black_crop ! 0"
    by simp
  then have "extract_lbp_features black_crop \<noteq> interior_only_histogram black_crop"
    by auto
  with a b show ?thesis by simp
qed

section \<open>Properties of the normalisation\<close>

lemma sum_sq_div:
  "(\<Sum>x\<leftarrow>v. (x / n)\<^sup>2) = (\<Sum>x\<leftarrow>v. x\<^sup>2) / n\<^sup>2" for n :: real
  by (induction v) (simp_all add: power_divide add_divide_distrib)

lemma sum_sq_nonneg: "0 \<le> (\<Sum>x\<leftarrow>v. x\<^sup>2)" for v :: "real list"
  by (induction v) simp_all

lemma sum_sq_zero_iff: "(\<Sum>x\<leftarrow>v. x\<^sup>2) = 0 \<longleftrightarrow> (\<forall>x \<in> set v. x = 0)" for v :: "real list"
proof (induction v)
  case Nil
  then show ?case by simp
next
  case (Cons a v)
  have "a\<^sup>2 + (\<Sum>x\<leftarrow>v. x\<^sup>2) = 0 \<longleftrightarrow> a\<^sup>2 = 0 \<and> (\<Sum>x\<leftarrow>v. x\<^sup>2) = 0"
    using sum_sq_nonneg [of v] by (simp add: add_nonneg_eq_0_iff)
  with Cons show ?case by simp
qed

lemma normalize_features_unit:
  assumes "\<exists>x \<in> set v. x \<noteq> 0"
  shows "l2_norm (normalize_features v) = 1"
proof -
  let ?s = "\<Sum>x\<leftarrow>v. x\<^sup>2"
  have "?s \<noteq> 0" using assms by (simp add: sum_sq_zero_iff)
  with sum_sq_nonneg [of v] have pos: "0 < ?s" by simp
  then have n: "0 < sqrt ?s" by simp
  have "(\<Sum>x\<leftarrow>map (\<lambda>x. x / sqrt ?s) v. x\<^sup>2) = ?s / (sqrt ?s)\<^sup>2"
    by (simp add: comp_def sum_sq_div)
  also have "\<dots> = 1" using pos by simp
  finally show ?thesis using n by (simp add: normalize_features_def l2_norm_def Let_def)
qed

lemma normalize_features_zero:
  assumes "\<forall>x \<in> set v. x = 0"
  shows "normalize_features v = v"
  using assms by (simp add: normalize_features_def l2_norm_def Let_def sum_sq_zero_iff [THEN iffD2])

text \<open>
  C7. The descriptor of a crop is the concatenation of the HOG vector and the LBP
  histogram, normalised: when some entry of the concatenation is not zero, the
  descriptor has Euclidean norm 1; when every entry is zero, the descriptor is the
  concatenation itself, the zero vector. (Entries are real numbers here.)
\<close>

theorem face_descriptor_unit_norm:
  "((\<exists>x \<in> set (hog_compute face @ extract_lbp_features face). x \<noteq> 0) \<longrightarrow>
       l2_norm (face_descriptor hog_compute face) = 1)
   \<and> ((\<forall>x \<in> set (hog_compute face @ extract_lbp_features face). x = 0) \<longrightarrow>
       face_descriptor hog_compute face = hog_compute face @ extract_lbp_features face
       \<and> (\<forall>x \<in> set (face_descriptor hog_compute face). x = 0))"
  unfolding face_descriptor_def
  using normalize_features_unit [of "hog_compute face @ extract_lbp_features face"]
    normalize_features_zero [of "hog_compute face @ extract_lbp_features face"]
  by auto

lemma extract_lbp_features_empty: "extract_lbp_features [] = replicate 256 0"
proof -
  have "lbp_image [] = []"
    by (simp add: lbp_image_def shape0_def shape1_def)
  then have "histogram256 (concat (lbp_image [])) = map (\<lambda>k. 0) [0..<256]"
    by (simp add: histogram256_def del: upt_rec_numeral)
  then have h: "map real (histogram256 (concat (lbp_image []))) = replicate 256 0"
    by (simp add: map_replicate_const comp_def del: upt_rec_numeral)
  show ?thesis
    unfolding extract_lbp_features_def Let_def h
    by (simp add: map_replicate_const)
qed

theorem face_descriptor_unit_norm_witness:
  "(\<exists>x \<in> set ((\<lambda>_. [3, 4]) black_crop @ extract_lbp_features black_crop). x \<noteq> 0)
   \<and> l2_norm (face_descriptor (\<lambda>_. [3, 4]) black_crop) = 1
   \<and> list_all (\<lambda>x. x = 0) ((\<lambda>_. [0, 0]) [] @ extract_lbp_features [])
   \<and> face_descriptor (\<lambda>_. [0, 0]) [] = [0, 0] @ extract_lbp_features []"
proof -
  have nz: "\<exists>x \<in> set ((\<lambda>_. [3, 4]) black_crop @ extract_lbp_features black_crop).
              x \<noteq> (0::real)"
    by (rule bexI [of _ 3]) simp_all
  have z: "\<forall>x \<in> set ((\<lambda>_. [0, 0]) [] @ extract_lbp_features []). x = (0::real)"
    by (simp add: extract_lbp_features_empty)
  have a: "l2_norm (face_descriptor (\<lambda>_. [3, 4]) black_crop) = 1"
    using nz face_descriptor_unit_norm [of "\<lambda>_. [3, 4]" black_crop] by blast
  have b: "face_descriptor (\<lambda>_. [0, 0]) [] = [0, 0] @ extract_lbp_features []"
    using z face_descriptor_unit_norm [of "\<lambda>_. [0, 0]" "[]"] by blast
  have c: "list_all (\<lambda>x. x = 0) ((\<lambda>_. [0, 0]) [] @ extract_lbp_features [])"
    using z by (simp only: list_all_iff)
  show ?thesis using nz a b c by blast
qed

end
